theory Spec2Isabelle
  imports Main "HOL-Library.Word" "HOL-Library.Signed_Division"
begin

section \<open>RFID access controller: the sketch as a state transformer\<close>

text \<open>
  The repository holds one Arduino sketch in two copies: \<^verbatim>\<open>Rfid_Master4_V1.ino\<close> and the
  listing in \<^verbatim>\<open>README.md\<close>. The listing is the sketch plus the inactivity timer
  (\<^verbatim>\<open>lastActivityTime\<close>, \<^verbatim>\<open>goToSleep\<close>); the handling of a scanned card is the same text
  in both. The target is the Arduino Nano (ATmega328P): \<^verbatim>\<open>byte\<close> is 8 bits, \<^verbatim>\<open>int\<close> is
  16 bits and signed, \<^verbatim>\<open>unsigned long\<close> is 32 bits.
\<close>

subsection \<open>Machine types\<close>

type_synonym byte = "8 word"
type_synonym cint = "16 word"
type_synonym ulong = "32 word"

text \<open>
  Modelled from the spec: the type of \<^verbatim>\<open>mfrc522.uid\<close> is declared by the MFRC522 reader
  library, which is not part of the repository. The spec describes the raw identifier as an
  ordered sequence of bytes, "length variable but small, e.g. 4--10 bytes"; the library's
  buffer \<^verbatim>\<open>uidByte\<close> has 10 entries. A value of type \<open>uid\<close> is the sequence
  \<^verbatim>\<open>uidByte[0], ..., uidByte[size - 1]\<close>, at most 10 bytes long.
\<close>

typedef uid = "{bs :: byte list. length bs \<le> 10}"
  by (rule exI [of _ "[]"]) simp

definition uidByte :: "uid \<Rightarrow> byte list" where
  "uidByte u = Rep_uid u"

text \<open>The UID read from a card that answers with the bytes \<open>bs\<close>; the buffer holds 10.\<close>

definition read_uid :: "byte list \<Rightarrow> uid" where
  "read_uid bs = Abs_uid (take 10 bs)"

subsection \<open>The credential reducer (\<^verbatim>\<open>loop\<close>, the lines computing \<^verbatim>\<open>shrunkUID\<close>)\<close>

text \<open>
  \<^verbatim>\<open>int uidSum = 0;
  for (byte i = 0; i < mfrc522.uid.size; i++) { uidSum += mfrc522.uid.uidByte[i]; }
  int shrunkUID = uidSum % 100;\<close>

  The accumulator is a 16-bit \<^verbatim>\<open>int\<close>: each byte is zero-extended and added with
  wrap-around. C's \<^verbatim>\<open>%\<close> on signed operands truncates towards zero, which is \<open>smod\<close> on
  the signed readings.
\<close>

fun uidSum_loop :: "byte list \<Rightarrow> cint \<Rightarrow> cint" where
  "uidSum_loop [] uidSum = uidSum"
| "uidSum_loop (b # bs) uidSum = uidSum_loop bs (uidSum + ucast b)"

definition c_rem :: "cint \<Rightarrow> cint \<Rightarrow> cint" where
  "c_rem a b = word_of_int (sint a smod sint b)"

definition shrunkUID :: "uid \<Rightarrow> cint" where
  "shrunkUID u = c_rem (uidSum_loop (uidByte u) 0) 100"

subsection \<open>Compile-time constants\<close>

definition MASTER_UID1 :: cint where "MASTER_UID1 = 43"
definition MASTER_UID2 :: cint where "MASTER_UID2 = 98"
definition MASTER_UID3 :: cint where "MASTER_UID3 = 123"
definition MASTER_UID4 :: cint where "MASTER_UID4 = 456"

text \<open>The condition of the outer \<^verbatim>\<open>if\<close> of \<^verbatim>\<open>loop\<close>.\<close>

definition is_master :: "cint \<Rightarrow> bool" where
  "is_master c \<longleftrightarrow>
     c = MASTER_UID1 \<or> c = MASTER_UID2 \<or> c = MASTER_UID3 \<or> c = MASTER_UID4"

subsection \<open>Outputs and the controller's state\<close>

datatype pin = RELAY_PIN | GREEN_LED_PIN | RED_LED_PIN | YELLOW_LED_PIN

datatype level = LOW | HIGH

text \<open>
  Everything the sketch does to the outside world, in the order it does it: serial output,
  pin writes, blocking delays, the reader's session calls and the calls of \<^verbatim>\<open>goToSleep\<close>.
\<close>

datatype effect =
    SerialPrint string
  | SerialPrintln string
  | SerialPrintlnInt int
  | DigitalWrite pin level
  | Delay nat
  | PICC_HaltA
  | PCD_StopCrypto1
  | SetSleepModePwrDown
  | SleepEnable
  | AttachInterrupt
  | SleepCpu
  | SleepDisable
  | DetachInterrupt

text \<open>
  The globals \<^verbatim>\<open>manageMode\<close>, \<^verbatim>\<open>activityFlag\<close> and \<^verbatim>\<open>lastActivityTime\<close>, the EEPROM
  (\<^verbatim>\<open>EEPROM.length()\<close> is the length of the list), the level of each output pin, and the
  effects so far.
\<close>

record controller =
  manageMode :: bool
  activityFlag :: bool
  lastActivityTime :: ulong
  EEPROM :: "byte list"
  pins :: "pin \<Rightarrow> level"
  trace :: "effect list"

definition emit :: "effect \<Rightarrow> controller \<Rightarrow> controller" where
  "emit e st = st\<lparr>trace := trace st @ [e]\<rparr>"

definition digitalWrite :: "pin \<Rightarrow> level \<Rightarrow> controller \<Rightarrow> controller" where
  "digitalWrite p l st = emit (DigitalWrite p l) (st\<lparr>pins := (pins st)(p := l)\<rparr>)"

definition delay :: "nat \<Rightarrow> controller \<Rightarrow> controller" where
  "delay ms st = emit (Delay ms) st"

definition Serial_print :: "string \<Rightarrow> controller \<Rightarrow> controller" where
  "Serial_print s st = emit (SerialPrint s) st"

definition Serial_println :: "string \<Rightarrow> controller \<Rightarrow> controller" where
  "Serial_println s st = emit (SerialPrintln s) st"

definition Serial_println_int :: "int \<Rightarrow> controller \<Rightarrow> controller" where
  "Serial_println_int n st = emit (SerialPrintlnInt n) st"

definition set_manageMode :: "bool \<Rightarrow> controller \<Rightarrow> controller" where
  "set_manageMode b st = st\<lparr>manageMode := b\<rparr>"

text \<open>
  \<^verbatim>\<open>EEPROM.write(address, value)\<close>. Every address the sketch writes to comes from one of the
  two searches below and is in range.
\<close>

definition EEPROM_write :: "int \<Rightarrow> byte \<Rightarrow> controller \<Rightarrow> controller" where
  "EEPROM_write address v st = st\<lparr>EEPROM := (EEPROM st)[nat address := v]\<rparr>"

text \<open>A block of statements, run in the order written.\<close>

definition run_stmts :: "(controller \<Rightarrow> controller) list \<Rightarrow> controller \<Rightarrow> controller" where
  "run_stmts stmts st = fold (\<lambda>stmt s. stmt s) stmts st"

subsection \<open>\<^verbatim>\<open>setup\<close>\<close>

text \<open>The state \<^verbatim>\<open>setup\<close> leaves, for a given content of the EEPROM.\<close>

definition setup_board :: "byte list \<Rightarrow> controller" where
  "setup_board eeprom =
     run_stmts
       [digitalWrite RELAY_PIN LOW, digitalWrite GREEN_LED_PIN LOW,
        digitalWrite RED_LED_PIN LOW, digitalWrite YELLOW_LED_PIN LOW,
        Serial_println ''Scan RFID tag...'']
       \<lparr>manageMode = False, activityFlag = False, lastActivityTime = 0,
        EEPROM = eeprom, pins = (\<lambda>p. LOW), trace = []\<rparr>"

subsection \<open>\<^verbatim>\<open>findEmptyEEPROMAddress\<close> and \<^verbatim>\<open>findEEPROMAddress\<close>\<close>

text \<open>
  Both are a \<^verbatim>\<open>for\<close> loop over \<^verbatim>\<open>i = 0 .. EEPROM.length() - 1\<close> that returns the first index
  whose cell passes the test and \<open>-1\<close> when the loop runs out. \<^verbatim>\<open>EEPROM.read(i)\<close> is a
  byte; in \<^verbatim>\<open>EEPROM.read(i) == uid\<close> it is promoted to \<^verbatim>\<open>int\<close>, that is zero-extended.
  The index \<^verbatim>\<open>i\<close> and the result are an \<^verbatim>\<open>int\<close>; they stay below \<^verbatim>\<open>EEPROM.length()\<close>,
  which is 1024 on the Nano and at most 4096 on any AVR part, so they are given here as
  unbounded numbers.
  (In \<^verbatim>\<open>Rfid_Master4_V1.ino\<close> the body of \<^verbatim>\<open>findEmptyEEPROMAddress\<close> lacks a semicolon and a
  closing brace; the listing in \<^verbatim>\<open>README.md\<close> has the function whole, and it is the one
  taken here.)
\<close>

function findEmptyEEPROMAddress_from :: "byte list \<Rightarrow> nat \<Rightarrow> int" where
  "findEmptyEEPROMAddress_from e i =
     (if i < length e
      then (if e ! i = 0 then int i else findEmptyEEPROMAddress_from e (Suc i))
      else - 1)"
  by pat_completeness auto
termination
  by (relation "measure (\<lambda>(e, i). length e - i)") auto

definition findEmptyEEPROMAddress :: "byte list \<Rightarrow> int" where
  "findEmptyEEPROMAddress e = findEmptyEEPROMAddress_from e 0"

function findEEPROMAddress_from :: "byte list \<Rightarrow> cint \<Rightarrow> nat \<Rightarrow> int" where
  "findEEPROMAddress_from e uid i =
     (if i < length e
      then (if ucast (e ! i) = uid then int i else findEEPROMAddress_from e uid (Suc i))
      else - 1)"
  by pat_completeness auto
termination
  by (relation "measure (\<lambda>(e, uid, i). length e - i)") auto

definition findEEPROMAddress :: "byte list \<Rightarrow> cint \<Rightarrow> int" where
  "findEEPROMAddress e uid = findEEPROMAddress_from e uid 0"

subsection \<open>\<^verbatim>\<open>loop\<close>: handling a scanned card\<close>

text \<open>The branch taken when the code is one of the master UIDs.\<close>

definition loop_master :: "controller \<Rightarrow> controller" where
  "loop_master st =
     (if manageMode st
      then run_stmts
        [Serial_println ''Master card detected again. Exiting manage mode...'',
         set_manageMode False,
         digitalWrite RED_LED_PIN LOW] st
      else run_stmts
        [Serial_println ''Master card detected. Entering manage mode...'',
         set_manageMode True,
         digitalWrite RED_LED_PIN HIGH,
         digitalWrite GREEN_LED_PIN HIGH,
         digitalWrite RELAY_PIN HIGH,
         delay 3000,
         digitalWrite RELAY_PIN LOW,
         digitalWrite GREEN_LED_PIN LOW] st)"

text \<open>The branch for any other code while \<^verbatim>\<open>manageMode\<close> is set.\<close>

definition loop_manage :: "cint \<Rightarrow> controller \<Rightarrow> controller" where
  "loop_manage code st =
     (let existingAddress = findEEPROMAddress (EEPROM st) code;
          st' =
            (if existingAddress \<noteq> - 1
             then run_stmts
               [EEPROM_write existingAddress 0,
                Serial_println ''Scanned UID removed from EEPROM.'',
                digitalWrite YELLOW_LED_PIN HIGH,
                delay 100,
                digitalWrite YELLOW_LED_PIN LOW] st
             else
               (let emptyAddress = findEmptyEEPROMAddress (EEPROM st)
                in if emptyAddress \<noteq> - 1
                   then run_stmts
                     [EEPROM_write emptyAddress (ucast code),
                      Serial_print ''New card added to EEPROM at address '',
                      Serial_println_int emptyAddress,
                      digitalWrite YELLOW_LED_PIN HIGH,
                      delay 1000,
                      digitalWrite YELLOW_LED_PIN LOW] st
                   else Serial_println ''EEPROM is full. Cannot add more cards.'' st))
      in run_stmts [set_manageMode False, digitalWrite RED_LED_PIN LOW] st')"

text \<open>The branch for any other code while \<^verbatim>\<open>manageMode\<close> is clear.\<close>

definition loop_normal :: "cint \<Rightarrow> controller \<Rightarrow> controller" where
  "loop_normal code st =
     (if findEEPROMAddress (EEPROM st) code \<noteq> - 1
      then run_stmts
        [Serial_println ''Access granted.'',
         digitalWrite GREEN_LED_PIN HIGH,
         digitalWrite RELAY_PIN HIGH,
         delay 3000,
         digitalWrite RELAY_PIN LOW,
         digitalWrite GREEN_LED_PIN LOW] st
      else run_stmts
        [Serial_println ''Access denied.'',
         digitalWrite RED_LED_PIN HIGH,
         delay 2000,
         digitalWrite RED_LED_PIN LOW] st)"

text \<open>
  The body of \<^verbatim>\<open>if (mfrc522.PICC_IsNewCardPresent() && mfrc522.PICC_ReadCardSerial())\<close> from
  \<^verbatim>\<open>Serial.print("Card UID: ")\<close> to \<^verbatim>\<open>mfrc522.PCD_StopCrypto1()\<close>, with the UID just read.
\<close>

definition card_event :: "uid \<Rightarrow> controller \<Rightarrow> controller" where
  "card_event u st =
     (let st1 = Serial_print ''Card UID: '' st;
          code = shrunkUID u;
          st2 = Serial_println_int (sint code) st1;
          st3 =
            (if is_master code then loop_master st2
             else if manageMode st2 then loop_manage code st2
             else loop_normal code st2)
      in run_stmts [emit PICC_HaltA, emit PCD_StopCrypto1] st3)"

subsection \<open>\<^verbatim>\<open>loop\<close> and \<^verbatim>\<open>goToSleep\<close>\<close>

text \<open>
  One pass of \<^verbatim>\<open>loop\<close> reads the millisecond clock for the inactivity test and then polls the
  reader. \<open>checkClock\<close> is the clock (milliseconds since start, not wrapped) at the test;
  \<open>card\<close> is \<open>None\<close> when no card was read, and otherwise the clock at
  \<^verbatim>\<open>lastActivityTime = millis()\<close> together with the UID. \<^verbatim>\<open>millis()\<close> returns the clock as an
  \<^verbatim>\<open>unsigned long\<close>, which wraps at \<open>2^32\<close>.
\<close>

record iteration =
  checkClock :: nat
  card :: "(nat \<times> uid) option"

definition millis :: "nat \<Rightarrow> ulong" where
  "millis clock = of_nat clock"

text \<open>The interrupt handler.\<close>

definition wakeUp :: "controller \<Rightarrow> controller" where
  "wakeUp st = st\<lparr>activityFlag := True\<rparr>"

text \<open>
  \<^verbatim>\<open>sleep_cpu()\<close> halts the processor in power-down mode; it returns only when the interrupt
  attached just before fires, that is after \<^verbatim>\<open>wakeUp\<close> has run.
\<close>

definition goToSleep :: "controller \<Rightarrow> controller" where
  "goToSleep st =
     run_stmts
       [Serial_println ''Going to sleep...'',
        emit SetSleepModePwrDown,
        emit SleepEnable,
        emit AttachInterrupt,
        emit SleepCpu,
        wakeUp,
        emit SleepDisable,
        emit DetachInterrupt,
        Serial_println ''Waking up...''] st"

definition loop :: "iteration \<Rightarrow> controller \<Rightarrow> controller" where
  "loop it st =
     (let st1 = (if millis (checkClock it) - lastActivityTime st \<ge> 1800000
                 then goToSleep st else st)
      in case card it of
           None \<Rightarrow> st1
         | Some (clock, u) \<Rightarrow>
             card_event u (st1\<lparr>activityFlag := True, lastActivityTime := millis clock\<rparr>))"

text \<open>A run of the sketch after \<^verbatim>\<open>setup\<close>: one \<^verbatim>\<open>loop\<close> pass after the other.\<close>

definition run :: "iteration list \<Rightarrow> controller \<Rightarrow> controller" where
  "run its st = fold loop its st"


subsection \<open>Observations used in the statements\<close>

text \<open>
  No non-empty code occupies two cells: the cells other than the empty marker \<open>0\<close> are
  pairwise different.
\<close>

definition store_ok :: "byte list \<Rightarrow> bool" where
  "store_ok e = distinct (filter (\<lambda>b. b \<noteq> 0) e)"

text \<open>How often \<^verbatim>\<open>sleep_cpu()\<close> has been called.\<close>

definition sleep_entries :: "controller \<Rightarrow> nat" where
  "sleep_entries st = length (filter (\<lambda>e. e = SleepCpu) (trace st))"

text \<open>
  Card events arrive more often than the threshold: \<open>since\<close> is the clock at the latest
  refresh of \<^verbatim>\<open>lastActivityTime\<close> (0 after \<^verbatim>\<open>setup\<close>). Every pass of \<^verbatim>\<open>loop\<close> is followed, in
  this pass or a later one, by a card; the clock does not run backwards from the latest
  refresh to the pass's test to that card's refresh; and that card comes less than
  1800000 ms after the latest refresh.
\<close>

fun next_refresh :: "iteration list \<Rightarrow> nat option" where
  "next_refresh [] = None"
| "next_refresh (it # its) =
     (case card it of Some (clock, u) \<Rightarrow> Some clock | None \<Rightarrow> next_refresh its)"

fun events_frequent :: "nat \<Rightarrow> iteration list \<Rightarrow> bool" where
  "events_frequent since [] = True"
| "events_frequent since (it # its) =
     (case next_refresh (it # its) of
        None \<Rightarrow> False
      | Some clock \<Rightarrow>
          since \<le> checkClock it \<and> checkClock it \<le> clock \<and> clock < since + 1800000 \<and>
          events_frequent (case card it of None \<Rightarrow> since | Some (clock', u) \<Rightarrow> clock') its)"

section \<open>Properties of the reducer\<close>

lemma uid_abstype [code abstype]: "Abs_uid (Rep_uid u) = u"
  by (rule Rep_uid_inverse)

lemma Rep_read_uid [code abstract]: "Rep_uid (read_uid bs) = take 10 bs"
  by (simp add: read_uid_def Abs_uid_inverse)

lemma uidByte_length: "length (uidByte u) \<le> 10"
  using Rep_uid [of u] by (simp add: uidByte_def)

lemma uidByte_read_uid: "uidByte (read_uid bs) = take 10 bs"
  by (simp add: uidByte_def Rep_read_uid)

lemma uint_ucast_byte: "uint (ucast (b :: byte) :: cint) = uint b"
  by (simp add: uint_up_ucast is_up)

lemma uint_byte_le: "uint (b :: byte) \<le> 255"
  using uint_lt2p [of b] by simp

lemma sum_bytes_nonneg: "0 \<le> sum_list (map uint (bs :: byte list))"
  by (induction bs) simp_all

lemma sum_bytes_le: "sum_list (map uint (bs :: byte list)) \<le> 255 * int (length bs)"
proof (induction bs)
  case Nil
  show ?case by simp
next
  case (Cons b bs)
  then show ?case using uint_byte_le [of b] by (simp add: algebra_simps)
qed

text \<open>As long as the running total stays below \<open>2^15\<close> the 16-bit accumulator never wraps.\<close>

lemma uint_uidSum_loop:
  "uint s + sum_list (map uint bs) < 32768 \<Longrightarrow>
   uint (uidSum_loop bs s) = uint s + sum_list (map uint bs)"
proof (induction bs arbitrary: s)
  case Nil
  show ?case by simp
next
  case (Cons b bs)
  have "uint (s + ucast b) = (uint s + uint b) mod 65536"
    by (simp add: uint_word_ariths uint_ucast_byte)
  moreover have "uint s + uint b < 65536"
    using Cons.prems sum_bytes_nonneg [of bs] by simp
  ultimately have step: "uint (s + ucast b) = uint s + uint b"
    by simp
  with Cons.prems have "uint (s + ucast b) + sum_list (map uint bs) < 32768"
    by simp
  from Cons.IH [OF this] step show ?case
    by simp
qed

lemma sint_small: "uint (w :: cint) < 32768 \<Longrightarrow> sint w = uint w"
proof -
  assume "uint w < 32768"
  have "(- (2 ^ 15) :: int) \<le> 0" and "0 \<le> uint w"
    by simp_all
  then have "- (2 ^ 15) \<le> uint w"
    by (rule order_trans)
  moreover note \<open>uint w < 32768\<close>
  ultimately have "signed_take_bit 15 (uint w) = uint w"
    by (intro signed_take_bit_int_eq_self) simp_all
  then show ?thesis
    by (simp add: sint_uint)
qed

lemma sint_word_of_small: "0 \<le> k \<Longrightarrow> k < 100 \<Longrightarrow> sint (word_of_int k :: cint) = k"
  by (simp add: sint_sbintrunc' signed_take_bit_int_eq_self)

lemma uint_word_of_small: "0 \<le> k \<Longrightarrow> k < 100 \<Longrightarrow> uint (word_of_int k :: cint) = k"
  by (simp add: uint_word_of_int take_bit_int_eq_self)

lemma uidSum_uid:
  "uint (uidSum_loop (uidByte u) 0) = sum_list (map uint (uidByte u))"
  "sint (uidSum_loop (uidByte u) 0) = sum_list (map uint (uidByte u))"
proof -
  have "sum_list (map uint (uidByte u)) \<le> 255 * int (length (uidByte u))"
    by (rule sum_bytes_le)
  also have "\<dots> \<le> 2550"
    using uidByte_length [of u] by simp
  finally have small: "sum_list (map uint (uidByte u)) < 32768"
    by simp
  then show u: "uint (uidSum_loop (uidByte u) 0) = sum_list (map uint (uidByte u))"
    using uint_uidSum_loop [of 0 "uidByte u"] by simp
  with small show "sint (uidSum_loop (uidByte u) 0) = sum_list (map uint (uidByte u))"
    by (simp add: sint_small)
qed

lemma shrunkUID_eq:
  "shrunkUID u = word_of_int (sum_list (map uint (uidByte u)) mod 100)"
  using sum_bytes_nonneg [of "uidByte u"]
  by (simp add: shrunkUID_def c_rem_def uidSum_uid signed_modulo_int_def sgn_if)

lemma sint_shrunkUID: "sint (shrunkUID u) = sum_list (map uint (uidByte u)) mod 100"
  by (simp add: shrunkUID_eq sint_word_of_small)

lemma uint_shrunkUID: "uint (shrunkUID u) = sum_list (map uint (uidByte u)) mod 100"
  by (simp add: shrunkUID_eq uint_word_of_small)

lemma shrunkUID_less: "uint (shrunkUID u) < 100"
  by (simp add: uint_shrunkUID)

section \<open>Properties of the controller\<close>

subsection \<open>The branches of \<^verbatim>\<open>loop\<close>, statement by statement\<close>

lemmas stmt_defs = run_stmts_def emit_def digitalWrite_def delay_def Serial_print_def
  Serial_println_def Serial_println_int_def set_manageMode_def EEPROM_write_def

lemma loop_master_unfold:
  "loop_master st =
     (if manageMode st
      then st\<lparr>manageMode := False,
              pins := (pins st)(RED_LED_PIN := LOW),
              trace := trace st @
                [SerialPrintln ''Master card detected again. Exiting manage mode...'',
                 DigitalWrite RED_LED_PIN LOW]\<rparr>
      else st\<lparr>manageMode := True,
              pins := (pins st)(RED_LED_PIN := HIGH, GREEN_LED_PIN := LOW, RELAY_PIN := LOW),
              trace := trace st @
                [SerialPrintln ''Master card detected. Entering manage mode...'',
                 DigitalWrite RED_LED_PIN HIGH,
                 DigitalWrite GREEN_LED_PIN HIGH,
                 DigitalWrite RELAY_PIN HIGH,
                 Delay 3000,
                 DigitalWrite RELAY_PIN LOW,
                 DigitalWrite GREEN_LED_PIN LOW]\<rparr>)"
  by (auto simp add: loop_master_def stmt_defs fun_upd_twist)

lemma loop_normal_unfold:
  "loop_normal code st =
     (if findEEPROMAddress (EEPROM st) code \<noteq> - 1
      then st\<lparr>pins := (pins st)(GREEN_LED_PIN := LOW, RELAY_PIN := LOW),
              trace := trace st @
                [SerialPrintln ''Access granted.'',
                 DigitalWrite GREEN_LED_PIN HIGH,
                 DigitalWrite RELAY_PIN HIGH,
                 Delay 3000,
                 DigitalWrite RELAY_PIN LOW,
                 DigitalWrite GREEN_LED_PIN LOW]\<rparr>
      else st\<lparr>pins := (pins st)(RED_LED_PIN := LOW),
              trace := trace st @
                [SerialPrintln ''Access denied.'',
                 DigitalWrite RED_LED_PIN HIGH,
                 Delay 2000,
                 DigitalWrite RED_LED_PIN LOW]\<rparr>)"
  by (auto simp add: loop_normal_def stmt_defs fun_upd_twist)

lemma loop_manage_unfold:
  "loop_manage code st =
     (if findEEPROMAddress (EEPROM st) code \<noteq> - 1
      then st\<lparr>manageMode := False,
              EEPROM := (EEPROM st)[nat (findEEPROMAddress (EEPROM st) code) := 0],
              pins := (pins st)(YELLOW_LED_PIN := LOW, RED_LED_PIN := LOW),
              trace := trace st @
                [SerialPrintln ''Scanned UID removed from EEPROM.'',
                 DigitalWrite YELLOW_LED_PIN HIGH,
                 Delay 100,
                 DigitalWrite YELLOW_LED_PIN LOW,
                 DigitalWrite RED_LED_PIN LOW]\<rparr>
      else if findEmptyEEPROMAddress (EEPROM st) \<noteq> - 1
      then st\<lparr>manageMode := False,
              EEPROM := (EEPROM st)[nat (findEmptyEEPROMAddress (EEPROM st)) := ucast code],
              pins := (pins st)(YELLOW_LED_PIN := LOW, RED_LED_PIN := LOW),
              trace := trace st @
                [SerialPrint ''New card added to EEPROM at address '',
                 SerialPrintlnInt (findEmptyEEPROMAddress (EEPROM st)),
                 DigitalWrite YELLOW_LED_PIN HIGH,
                 Delay 1000,
                 DigitalWrite YELLOW_LED_PIN LOW,
                 DigitalWrite RED_LED_PIN LOW]\<rparr>
      else st\<lparr>manageMode := False,
              pins := (pins st)(RED_LED_PIN := LOW),
              trace := trace st @
                [SerialPrintln ''EEPROM is full. Cannot add more cards.'',
                 DigitalWrite RED_LED_PIN LOW]\<rparr>)"
  by (auto simp add: loop_manage_def stmt_defs Let_def fun_upd_twist)

lemma card_event_unfold:
  "card_event u st =
     (let st2 = st\<lparr>trace := trace st @
                   [SerialPrint ''Card UID: '', SerialPrintlnInt (sint (shrunkUID u))]\<rparr>;
          st3 = (if is_master (shrunkUID u) then loop_master st2
                 else if manageMode st then loop_manage (shrunkUID u) st2
                 else loop_normal (shrunkUID u) st2)
      in st3\<lparr>trace := trace st3 @ [PICC_HaltA, PCD_StopCrypto1]\<rparr>)"
  by (simp add: card_event_def stmt_defs Let_def)

lemma EEPROM_loop_master: "EEPROM (loop_master st) = EEPROM st"
  by (simp add: loop_master_unfold)

lemma EEPROM_loop_normal: "EEPROM (loop_normal code st) = EEPROM st"
  by (simp add: loop_normal_unfold)

lemma EEPROM_card_event:
  "EEPROM (card_event u st) =
     (if \<not> is_master (shrunkUID u) \<and> manageMode st
      then EEPROM (loop_manage (shrunkUID u) st) else EEPROM st)"
  by (simp add: card_event_unfold Let_def EEPROM_loop_master EEPROM_loop_normal
      loop_manage_unfold)

lemma manageMode_card_event:
  "manageMode (card_event u st) = (is_master (shrunkUID u) \<and> \<not> manageMode st)"
  by (simp add: card_event_unfold Let_def loop_master_unfold loop_manage_unfold
      loop_normal_unfold)

lemma lastActivityTime_card_event:
  "lastActivityTime (card_event u st) = lastActivityTime st"
  by (simp add: card_event_unfold Let_def loop_master_unfold loop_manage_unfold
      loop_normal_unfold)

subsection \<open>Concrete cards\<close>

lemma shrunk_eval:
  "shrunkUID (read_uid [0x0A, 0x0B, 0x0C, 0x0A]) = 43"
  "shrunkUID (read_uid [0x62]) = 98"
  "shrunkUID (read_uid [7]) = 7"
  by (simp_all add: shrunkUID_def uidByte_read_uid c_rem_def signed_modulo_int_def)

subsection \<open>The two searches\<close>

declare findEEPROMAddress_from.simps [simp del]
declare findEmptyEEPROMAddress_from.simps [simp del]

lemma findEEPROMAddress_from_none:
  "(findEEPROMAddress_from e uid i = - 1) =
   (\<forall>j. i \<le> j \<and> j < length e \<longrightarrow> ucast (e ! j) \<noteq> uid)"
proof (induction e uid i rule: findEEPROMAddress_from.induct)
  case (1 e uid i)
  show ?case
  proof (cases "i < length e")
    case False
    then show ?thesis
      by (subst findEEPROMAddress_from.simps) auto
  next
    case True
    show ?thesis
    proof (cases "ucast (e ! i) = uid")
      case hit: True
      with True show ?thesis
        by (subst findEEPROMAddress_from.simps) auto
    next
      case miss: False
      have "(\<forall>j. i \<le> j \<and> j < length e \<longrightarrow> ucast (e ! j) \<noteq> uid) =
            (\<forall>j. Suc i \<le> j \<and> j < length e \<longrightarrow> ucast (e ! j) \<noteq> uid)"
        using miss by (metis Suc_leI le_neq_implies_less Suc_leD)
      with 1 True miss show ?thesis
        by (subst findEEPROMAddress_from.simps) simp
    qed
  qed
qed

lemma findEEPROMAddress_from_some:
  "findEEPROMAddress_from e uid i \<noteq> - 1 \<Longrightarrow>
   0 \<le> findEEPROMAddress_from e uid i \<and>
   nat (findEEPROMAddress_from e uid i) < length e \<and>
   ucast (e ! nat (findEEPROMAddress_from e uid i)) = uid"
proof (induction e uid i rule: findEEPROMAddress_from.induct)
  case (1 e uid i)
  show ?case
  proof (cases "i < length e")
    case False
    with "1.prems" show ?thesis
      by (subst (asm) findEEPROMAddress_from.simps) simp
  next
    case True
    show ?thesis
    proof (cases "ucast (e ! i) = uid")
      case hit: True
      with True have "findEEPROMAddress_from e uid i = int i"
        by (subst findEEPROMAddress_from.simps) simp
      with True hit show ?thesis by simp
    next
      case miss: False
      with True have eq: "findEEPROMAddress_from e uid i = findEEPROMAddress_from e uid (Suc i)"
        by (subst findEEPROMAddress_from.simps) simp
      with "1.prems" have "findEEPROMAddress_from e uid (Suc i) \<noteq> - 1" by simp
      from "1.IH" [OF True miss this] eq show ?thesis by simp
    qed
  qed
qed

lemma findEmptyEEPROMAddress_from_none:
  "(findEmptyEEPROMAddress_from e i = - 1) =
   (\<forall>j. i \<le> j \<and> j < length e \<longrightarrow> e ! j \<noteq> 0)"
proof (induction e i rule: findEmptyEEPROMAddress_from.induct)
  case (1 e i)
  show ?case
  proof (cases "i < length e")
    case False
    then show ?thesis
      by (subst findEmptyEEPROMAddress_from.simps) auto
  next
    case True
    show ?thesis
    proof (cases "e ! i = 0")
      case hit: True
      with True show ?thesis
        by (subst findEmptyEEPROMAddress_from.simps) auto
    next
      case miss: False
      have "(\<forall>j. i \<le> j \<and> j < length e \<longrightarrow> e ! j \<noteq> 0) =
            (\<forall>j. Suc i \<le> j \<and> j < length e \<longrightarrow> e ! j \<noteq> 0)"
        using miss by (metis Suc_leI le_neq_implies_less Suc_leD)
      with 1 True miss show ?thesis
        by (subst findEmptyEEPROMAddress_from.simps) simp
    qed
  qed
qed

lemma findEmptyEEPROMAddress_from_some:
  "findEmptyEEPROMAddress_from e i \<noteq> - 1 \<Longrightarrow>
   0 \<le> findEmptyEEPROMAddress_from e i \<and>
   nat (findEmptyEEPROMAddress_from e i) < length e \<and>
   e ! nat (findEmptyEEPROMAddress_from e i) = 0"
proof (induction e i rule: findEmptyEEPROMAddress_from.induct)
  case (1 e i)
  show ?case
  proof (cases "i < length e")
    case False
    with "1.prems" show ?thesis
      by (subst (asm) findEmptyEEPROMAddress_from.simps) simp
  next
    case True
    show ?thesis
    proof (cases "e ! i = 0")
      case hit: True
      with True have "findEmptyEEPROMAddress_from e i = int i"
        by (subst findEmptyEEPROMAddress_from.simps) simp
      with True hit show ?thesis by simp
    next
      case miss: False
      with True have eq: "findEmptyEEPROMAddress_from e i = findEmptyEEPROMAddress_from e (Suc i)"
        by (subst findEmptyEEPROMAddress_from.simps) simp
      with "1.prems" have "findEmptyEEPROMAddress_from e (Suc i) \<noteq> - 1" by simp
      from "1.IH" [OF True miss this] eq show ?thesis by simp
    qed
  qed
qed

lemma findEEPROMAddress_none: 
  "(findEEPROMAddress e uid = - 1) = (\<forall>b\<in>set e. ucast b \<noteq> uid)"
  by (simp add: findEEPROMAddress_def findEEPROMAddress_from_none all_set_conv_all_nth)

lemma findEEPROMAddress_some:
  "findEEPROMAddress e uid \<noteq> - 1 \<Longrightarrow>
   0 \<le> findEEPROMAddress e uid \<and> nat (findEEPROMAddress e uid) < length e \<and>
   ucast (e ! nat (findEEPROMAddress e uid)) = uid"
  unfolding findEEPROMAddress_def by (rule findEEPROMAddress_from_some)

lemma findEmptyEEPROMAddress_none:
  "(findEmptyEEPROMAddress e = - 1) = (0 \<notin> set e)"
  by (auto simp add: findEmptyEEPROMAddress_def findEmptyEEPROMAddress_from_none in_set_conv_nth)

lemma findEmptyEEPROMAddress_some:
  "findEmptyEEPROMAddress e \<noteq> - 1 \<Longrightarrow>
   0 \<le> findEmptyEEPROMAddress e \<and> nat (findEmptyEEPROMAddress e) < length e \<and>
   e ! nat (findEmptyEEPROMAddress e) = 0"
  unfolding findEmptyEEPROMAddress_def by (rule findEmptyEEPROMAddress_from_some)

subsection \<open>Start state and concrete master tests\<close>

lemma setup_board_unfold:
  "setup_board eeprom =
     \<lparr>manageMode = False, activityFlag = False, lastActivityTime = 0, EEPROM = eeprom,
      pins = (\<lambda>p. LOW),
      trace = [DigitalWrite RELAY_PIN LOW, DigitalWrite GREEN_LED_PIN LOW,
               DigitalWrite RED_LED_PIN LOW, DigitalWrite YELLOW_LED_PIN LOW,
               SerialPrintln ''Scan RFID tag...'']\<rparr>"
  by (simp add: setup_board_def stmt_defs fun_eq_iff)

lemma master_eval:
  "is_master 43" "is_master 98" "\<not> is_master 7" "\<not> is_master 0"
  by (simp_all add: is_master_def MASTER_UID1_def MASTER_UID2_def MASTER_UID3_def MASTER_UID4_def)

subsection \<open>The store invariant\<close>

lemma ucast_ucast_small: "uint (c :: cint) < 100 \<Longrightarrow> (ucast (ucast c :: byte) :: cint) = c"
proof -
  assume lt: "uint c < 100"
  have "uint (ucast (ucast c :: byte) :: cint) = uint (ucast c :: byte)"
    by (rule uint_ucast_byte)
  also have "\<dots> = take_bit 8 (uint c)"
    by (simp add: unsigned_ucast_eq)
  also have "\<dots> = uint c"
    using lt by (simp add: take_bit_int_eq_self)
  finally show ?thesis
    by (simp add: word_uint_eq_iff)
qed

lemma filter_update_subset:
  "set (filter P (xs[k := v])) \<subseteq> insert v (set (filter P xs))"
  using set_update_subset_insert [of xs k v] by auto

lemma distinct_filter_update_drop:
  "distinct (filter P xs) \<Longrightarrow> \<not> P v \<Longrightarrow> distinct (filter P (xs[k := v]))"
proof (induction xs arbitrary: k)
  case Nil
  then show ?case by simp
next
  case (Cons x xs)
  show ?case
  proof (cases k)
    case 0
    with Cons.prems show ?thesis by (simp split: if_splits)
  next
    case (Suc k')
    have sub: "set (filter P (xs[k' := v])) \<subseteq> insert v (set (filter P xs))"
      by (rule filter_update_subset)
    from Cons.prems have d: "distinct (filter P xs)" by (simp split: if_splits)
    from Cons.IH [OF d Cons.prems(2)] have ih: "distinct (filter P (xs[k' := v]))" .
    show ?thesis
    proof (cases "P x")
      case True
      with Cons.prems have "x \<notin> set (filter P xs)" by simp
      moreover from True Cons.prems(2) have "x \<noteq> v" by auto
      ultimately have "x \<notin> set (filter P (xs[k' := v]))" using sub by auto
      with ih True Suc show ?thesis by simp
    next
      case False
      with ih Suc show ?thesis by simp
    qed
  qed
qed

lemma distinct_filter_update_fresh:
  "distinct (filter P xs) \<Longrightarrow> k < length xs \<Longrightarrow> \<not> P (xs ! k) \<Longrightarrow> v \<notin> set xs \<Longrightarrow>
   distinct (filter P (xs[k := v]))"
proof (induction xs arbitrary: k)
  case Nil
  then show ?case by simp
next
  case (Cons x xs)
  show ?case
  proof (cases k)
    case 0
    with Cons.prems show ?thesis by simp
  next
    case (Suc k')
    have sub: "set (filter P (xs[k' := v])) \<subseteq> insert v (set (filter P xs))"
      by (rule filter_update_subset)
    from Cons.prems have d: "distinct (filter P xs)" by (simp split: if_splits)
    from Cons.prems Suc have "k' < length xs" "\<not> P (xs ! k')" "v \<notin> set xs" by simp_all
    from Cons.IH [OF d this] have ih: "distinct (filter P (xs[k' := v]))" .
    show ?thesis
    proof (cases "P x")
      case True
      with Cons.prems have "x \<notin> set (filter P xs)" by simp
      moreover from Cons.prems(4) have "x \<noteq> v" by auto
      ultimately have "x \<notin> set (filter P (xs[k' := v]))" using sub by auto
      with ih True Suc show ?thesis by simp
    next
      case False
      with ih Suc show ?thesis by simp
    qed
  qed
qed

lemma store_ok_loop_manage:
  assumes ok: "store_ok (EEPROM st)" and small: "uint code < 100"
  shows "store_ok (EEPROM (loop_manage code st))"
proof (cases "findEEPROMAddress (EEPROM st) code \<noteq> - 1")
  case True
  then have "EEPROM (loop_manage code st) =
      (EEPROM st)[nat (findEEPROMAddress (EEPROM st) code) := 0]"
    by (simp add: loop_manage_unfold)
  with ok show ?thesis
    by (simp add: store_ok_def distinct_filter_update_drop)
next
  case absent: False
  show ?thesis
  proof (cases "findEmptyEEPROMAddress (EEPROM st) \<noteq> - 1")
    case False
    with absent have "EEPROM (loop_manage code st) = EEPROM st"
      by (simp add: loop_manage_unfold)
    with ok show ?thesis by simp
  next
    case True
    from findEmptyEEPROMAddress_some [OF True]
    have k: "nat (findEmptyEEPROMAddress (EEPROM st)) < length (EEPROM st)"
      and z: "EEPROM st ! nat (findEmptyEEPROMAddress (EEPROM st)) = 0"
      by simp_all
    from absent have "\<forall>b\<in>set (EEPROM st). ucast b \<noteq> code"
      by (simp add: findEEPROMAddress_none)
    with ucast_ucast_small [OF small] have fresh: "ucast code \<notin> set (EEPROM st)"
      by auto
    from True absent have "EEPROM (loop_manage code st) =
        (EEPROM st)[nat (findEmptyEEPROMAddress (EEPROM st)) := ucast code]"
      by (simp add: loop_manage_unfold)
    with ok k z fresh show ?thesis
      by (simp add: store_ok_def distinct_filter_update_fresh)
  qed
qed

lemma store_ok_card_event:
  "store_ok (EEPROM st) \<Longrightarrow> store_ok (EEPROM (card_event u st))"
  by (simp add: EEPROM_card_event store_ok_loop_manage shrunkUID_less)

lemma goToSleep_unfold:
  "goToSleep st = st\<lparr>activityFlag := True, trace := trace st @
     [SerialPrintln ''Going to sleep...'', SetSleepModePwrDown, SleepEnable, AttachInterrupt,
      SleepCpu, SleepDisable, DetachInterrupt, SerialPrintln ''Waking up...'']\<rparr>"
  by (simp add: goToSleep_def wakeUp_def stmt_defs)

lemma EEPROM_loop:
  "EEPROM (loop it st) = (case card it of None \<Rightarrow> EEPROM st | Some (clock, u) \<Rightarrow>
      (if \<not> is_master (shrunkUID u) \<and> manageMode st
       then EEPROM (loop_manage (shrunkUID u) st) else EEPROM st))"
  by (simp add: loop_def Let_def goToSleep_unfold EEPROM_card_event loop_manage_unfold
      split: option.splits)

lemma store_ok_loop: "store_ok (EEPROM st) \<Longrightarrow> store_ok (EEPROM (loop it st))"
  by (simp add: EEPROM_loop store_ok_loop_manage shrunkUID_less split: option.splits)

subsection \<open>The inactivity timer\<close>

lemma sleep_entries_card_event: "sleep_entries (card_event u st) = sleep_entries st"
  by (simp add: sleep_entries_def card_event_unfold Let_def loop_master_unfold
      loop_manage_unfold loop_normal_unfold)

lemma lastActivityTime_loop:
  "lastActivityTime (loop it st) =
     (case card it of None \<Rightarrow> lastActivityTime st | Some (clock, u) \<Rightarrow> millis clock)"
  by (simp add: loop_def Let_def goToSleep_unfold lastActivityTime_card_event
      split: option.splits)

lemma sleep_entries_loop:
  "sleep_entries (loop it st) =
     (if millis (checkClock it) - lastActivityTime st \<ge> 1800000
      then Suc (sleep_entries st) else sleep_entries st)"
  by (simp add: loop_def Let_def sleep_entries_card_event split: option.splits)
     (simp add: sleep_entries_def goToSleep_unfold)

lemma millis_diff: "a \<le> b \<Longrightarrow> millis b - millis a = of_nat (b - a)"
  by (simp add: millis_def)

lemma unat_millis_elapsed:
  "a \<le> b \<Longrightarrow> unat (millis b - millis a) = (b - a) mod 2 ^ 32"
proof -
  assume "a \<le> b"
  then have "unat (millis b - millis a) = unat (of_nat (b - a) :: ulong)"
    by (simp only: millis_diff)
  also have "\<dots> = (b - a) mod 2 ^ LENGTH(32)"
    by (simp only: unat_of_nat)
  finally show ?thesis
    by simp
qed

lemma sleep_guard_elapsed:
  assumes "a \<le> b" and "millis b - millis a \<ge> 1800000"
  shows "1800000 \<le> b - a"
proof -
  from assms(2) have "unat (1800000 :: ulong) \<le> unat (millis b - millis a)"
    by (simp add: word_le_nat_alt)
  then have "1800000 \<le> (b - a) mod 2 ^ 32"
    using assms(1) by (simp add: unat_millis_elapsed)
  also have "\<dots> \<le> b - a"
    by (rule mod_less_eq_dividend)
  finally show ?thesis .
qed

lemma sleep_guard_recent:
  assumes "a \<le> b" and "b - a < 1800000"
  shows "\<not> millis b - millis a \<ge> 1800000"
proof
  assume "millis b - millis a \<ge> 1800000"
  with assms(1) have "1800000 \<le> b - a"
    by (rule sleep_guard_elapsed)
  with assms(2) show False by simp
qed

lemma no_sleep_while_frequent:
  "lastActivityTime st = millis since \<Longrightarrow> events_frequent since its \<Longrightarrow>
   sleep_entries (fold loop its st) = sleep_entries st"
proof (induction its arbitrary: st since)
  case Nil
  show ?case by simp
next
  case (Cons it its)
  define since' where "since' = (case card it of None \<Rightarrow> since | Some (clock', u) \<Rightarrow> clock')"
  from Cons.prems(2) obtain clock where
    lo: "since \<le> checkClock it" and hi: "checkClock it \<le> clock"
    and gap: "clock < since + 1800000" and rest: "events_frequent since' its"
    by (auto simp add: since'_def split: option.splits)
  from lo hi gap have "checkClock it - since < 1800000"
    by simp
  with lo have "\<not> millis (checkClock it) - millis since \<ge> 1800000"
    by (rule sleep_guard_recent)
  with Cons.prems(1) have here: "sleep_entries (loop it st) = sleep_entries st"
    by (simp add: sleep_entries_loop)
  from Cons.prems(1) have "lastActivityTime (loop it st) = millis since'"
    by (simp add: lastActivityTime_loop since'_def split: option.splits)
  from Cons.IH [OF this rest] here show ?case
    by simp
qed

section \<open>The claims\<close>

subsection \<open>The reducer\<close>

text \<open>
  C6. The credential reducer is a deterministic pure function of the raw identifier: for
  every raw identifier the reader can yield, the code computed by \<^verbatim>\<open>loop\<close> (read as the signed
  16-bit \<^verbatim>\<open>int\<close> it is) equals the sum of the identifier's bytes modulo 100, and identifiers
  with equal bytes get equal codes. The 16-bit accumulator cannot wrap on an identifier of at
  most 10 bytes (the sum is at most 2550), and on a non-negative sum C's truncating \<^verbatim>\<open>%\<close>
  agrees with the mathematical \<open>mod\<close>. (Lemma \<open>uint_uidSum_loop\<close> shows the same for any byte
  sequence whose sum stays below \<open>2^15\<close>, which includes every sequence of up to 128 bytes.)
\<close>

theorem shrunkUID_sum_mod_100:
  "sint (shrunkUID u) = sum_list (map uint (uidByte u)) mod 100 \<and>
   (uidByte u = uidByte v \<longrightarrow> shrunkUID u = shrunkUID v)"
proof
  show "sint (shrunkUID u) = sum_list (map uint (uidByte u)) mod 100"
    by (rule sint_shrunkUID)
  show "uidByte u = uidByte v \<longrightarrow> shrunkUID u = shrunkUID v"
    by (simp add: shrunkUID_def)
qed

theorem shrunkUID_sum_mod_100_witness:
  "uidByte (read_uid [0xDE, 0xAD, 0xBE, 0xEF]) = uidByte (read_uid [0xDE, 0xAD, 0xBE, 0xEF]) \<and>
   sint (shrunkUID (read_uid [0xDE, 0xAD, 0xBE, 0xEF])) = 24 \<and>
   shrunkUID (read_uid [0xDE, 0xAD, 0xBE, 0xEF]) = shrunkUID (read_uid [0xDE, 0xAD, 0xBE, 0xEF])"
  using shrunkUID_sum_mod_100
    [of "read_uid [0xDE, 0xAD, 0xBE, 0xEF]" "read_uid [0xDE, 0xAD, 0xBE, 0xEF]"]
  by (simp add: uidByte_read_uid)

text \<open>
  C10. For every raw identifier the reduced code lies in \<open>[0, 99]\<close>. Hence it never equals
  \<^verbatim>\<open>MASTER_UID3\<close> (123) or \<^verbatim>\<open>MASTER_UID4\<close> (456): the master test of \<^verbatim>\<open>loop\<close> succeeds exactly
  when the code is \<^verbatim>\<open>MASTER_UID1\<close> (43) or \<^verbatim>\<open>MASTER_UID2\<close> (98), and the other two constants
  are dead configuration.
\<close>

theorem shrunkUID_range_dead_masters:
  "0 \<le> sint (shrunkUID u) \<and> sint (shrunkUID u) \<le> 99 \<and>
   shrunkUID u \<noteq> MASTER_UID3 \<and> shrunkUID u \<noteq> MASTER_UID4 \<and>
   is_master (shrunkUID u) = (shrunkUID u = MASTER_UID1 \<or> shrunkUID u = MASTER_UID2)"
proof -
  have range: "0 \<le> sint (shrunkUID u)" "sint (shrunkUID u) \<le> 99"
    by (simp_all add: sint_shrunkUID)
  have lt: "uint (shrunkUID u) < 100"
    by (rule shrunkUID_less)
  have n3: "shrunkUID u \<noteq> MASTER_UID3"
  proof
    assume "shrunkUID u = MASTER_UID3"
    then have "uint (shrunkUID u) = 123"
      by (simp add: MASTER_UID3_def)
    with lt show False by simp
  qed
  have n4: "shrunkUID u \<noteq> MASTER_UID4"
  proof
    assume "shrunkUID u = MASTER_UID4"
    then have "uint (shrunkUID u) = 456"
      by (simp add: MASTER_UID4_def)
    with lt show False by simp
  qed
  from n3 n4 have "is_master (shrunkUID u) = (shrunkUID u = MASTER_UID1 \<or> shrunkUID u = MASTER_UID2)"
    by (simp add: is_master_def)
  with range n3 n4 show ?thesis
    by simp
qed

subsection \<open>The state machine\<close>

text \<open>
  C2. In either mode a card whose code passes the master test only toggles the mode: the
  EEPROM is untouched and the trace holds neither a grant or deny message nor an add or remove
  message. From Normal the mode becomes Manage, the red (admin) LED is switched on, and the
  green LED and the relay are driven high for the 3000 ms delay and then low. From Manage the
  mode becomes Normal and the only pin write is red low. Two master cards in a row, starting
  in Normal, end in Normal.
\<close>

theorem master_card_toggles_mode:
  "is_master (shrunkUID u) \<Longrightarrow>
   manageMode (card_event u st) = (\<not> manageMode st) \<and>
   EEPROM (card_event u st) = EEPROM st \<and>
   pins (card_event u st) =
     (if manageMode st then (pins st)(RED_LED_PIN := LOW)
      else (pins st)(RED_LED_PIN := HIGH, GREEN_LED_PIN := LOW, RELAY_PIN := LOW)) \<and>
   trace (card_event u st) = trace st @
     [SerialPrint ''Card UID: '', SerialPrintlnInt (sint (shrunkUID u))] @
     (if manageMode st
      then [SerialPrintln ''Master card detected again. Exiting manage mode...'',
            DigitalWrite RED_LED_PIN LOW]
      else [SerialPrintln ''Master card detected. Entering manage mode...'',
            DigitalWrite RED_LED_PIN HIGH,
            DigitalWrite GREEN_LED_PIN HIGH,
            DigitalWrite RELAY_PIN HIGH,
            Delay 3000,
            DigitalWrite RELAY_PIN LOW,
            DigitalWrite GREEN_LED_PIN LOW]) @
     [PICC_HaltA, PCD_StopCrypto1] \<and>
   (is_master (shrunkUID v) \<and> \<not> manageMode st \<longrightarrow>
      \<not> manageMode (card_event v (card_event u st)))"
  by (simp add: card_event_unfold Let_def loop_master_unfold)

theorem master_card_toggles_mode_witness:
  "is_master (shrunkUID (read_uid [0x0A, 0x0B, 0x0C, 0x0A])) \<and>
   is_master (shrunkUID (read_uid [0x62])) \<and>
   \<not> manageMode (setup_board [0, 0]) \<and>
   manageMode (card_event (read_uid [0x0A, 0x0B, 0x0C, 0x0A]) (setup_board [0, 0])) \<and>
   EEPROM (card_event (read_uid [0x0A, 0x0B, 0x0C, 0x0A]) (setup_board [0, 0])) = [0, 0] \<and>
   \<not> manageMode (card_event (read_uid [0x62])
       (card_event (read_uid [0x0A, 0x0B, 0x0C, 0x0A]) (setup_board [0, 0])))"
proof -
  have m1: "is_master (shrunkUID (read_uid [0x0A, 0x0B, 0x0C, 0x0A]))"
    and m2: "is_master (shrunkUID (read_uid [0x62]))"
    by (simp_all add: shrunk_eval is_master_def MASTER_UID1_def MASTER_UID2_def)
  have n: "\<not> manageMode (setup_board [0, 0])" and e: "EEPROM (setup_board [0, 0]) = [0, 0]"
    by (simp_all add: setup_board_def stmt_defs)
  from master_card_toggles_mode [OF m1, of "setup_board [0, 0]" "read_uid [0x62]"] m1 m2 n e
  show ?thesis by simp
qed

text \<open>
  C3. A card that fails the master test, scanned while \<^verbatim>\<open>manageMode\<close> is set, always leaves
  the controller in Normal mode with the red (admin) LED low, whatever the store holds: the
  card was removed, or added, or the store was full.
\<close>

theorem manage_mode_single_action:
  "\<not> is_master (shrunkUID u) \<Longrightarrow> manageMode st \<Longrightarrow>
   \<not> manageMode (card_event u st) \<and> pins (card_event u st) RED_LED_PIN = LOW"
  by (simp add: card_event_unfold Let_def loop_manage_unfold)

theorem manage_mode_single_action_witness:
  "\<not> is_master (shrunkUID (read_uid [7])) \<and>
   manageMode (card_event (read_uid [0x62]) (setup_board [0, 0])) \<and>
   \<not> manageMode (card_event (read_uid [7]) (card_event (read_uid [0x62]) (setup_board [0, 0]))) \<and>
   pins (card_event (read_uid [7]) (card_event (read_uid [0x62]) (setup_board [0, 0])))
     RED_LED_PIN = LOW"
proof -
  have n: "\<not> is_master (shrunkUID (read_uid [7]))"
    by (simp add: shrunk_eval master_eval)
  have m: "manageMode (card_event (read_uid [0x62]) (setup_board [0, 0]))"
    by (simp add: manageMode_card_event shrunk_eval master_eval setup_board_unfold)
  from manage_mode_single_action [OF n m] n m show ?thesis
    by simp
qed

text \<open>
  C8. While \<^verbatim>\<open>manageMode\<close> is clear, no card writes to the EEPROM: a grant, a denial and the
  entry into manage mode all leave every cell as it was, for the handling of the card and for
  a whole pass of \<^verbatim>\<open>loop\<close> (with or without a card, with or without going to sleep). In
  particular a denied card is not stored.
\<close>

theorem normal_mode_never_writes:
  "\<not> manageMode st \<Longrightarrow>
   EEPROM (card_event u st) = EEPROM st \<and> EEPROM (loop it st) = EEPROM st"
  by (simp add: EEPROM_card_event EEPROM_loop split: option.splits)

theorem normal_mode_never_writes_witness:
  "\<not> manageMode (setup_board (replicate 10 0)) \<and>
   EEPROM (card_event (read_uid [7]) (setup_board (replicate 10 0))) = replicate 10 0 \<and>
   EEPROM (loop \<lparr>checkClock = 100, card = Some (101, read_uid [7])\<rparr>
      (setup_board (replicate 10 0))) = replicate 10 0 \<and>
   findEEPROMAddress (replicate 10 0) (shrunkUID (read_uid [7])) = - 1"
proof -
  have n: "\<not> manageMode (setup_board (replicate 10 0))"
    and e: "EEPROM (setup_board (replicate 10 0)) = replicate 10 0"
    by (simp_all add: setup_board_unfold)
  have d: "findEEPROMAddress (replicate 10 0) (shrunkUID (read_uid [7])) = - 1"
    by (simp add: findEEPROMAddress_none shrunk_eval)
  from normal_mode_never_writes [OF n] n e d show ?thesis
    by simp
qed

text \<open>
  C5. A card that fails the master test and whose code is in no cell, scanned in manage mode
  while no cell is empty: the controller prints that the EEPROM is full, every cell keeps its
  value, no pin is driven high (the only pin write is red low, on leaving manage mode), and
  the handling runs to its end (the reader session is closed) with the mode back to Normal.
\<close>

theorem store_full_add_fails:
  "\<not> is_master (shrunkUID u) \<Longrightarrow> manageMode st \<Longrightarrow> 0 \<notin> set (EEPROM st) \<Longrightarrow>
   \<forall>b\<in>set (EEPROM st). ucast b \<noteq> shrunkUID u \<Longrightarrow>
   EEPROM (card_event u st) = EEPROM st \<and>
   pins (card_event u st) = (pins st)(RED_LED_PIN := LOW) \<and>
   \<not> manageMode (card_event u st) \<and>
   trace (card_event u st) = trace st @
     [SerialPrint ''Card UID: '', SerialPrintlnInt (sint (shrunkUID u)),
      SerialPrintln ''EEPROM is full. Cannot add more cards.'',
      DigitalWrite RED_LED_PIN LOW,
      PICC_HaltA, PCD_StopCrypto1]"
proof -
  assume nm: "\<not> is_master (shrunkUID u)" and mm: "manageMode st"
    and full: "0 \<notin> set (EEPROM st)"
    and absent: "\<forall>b\<in>set (EEPROM st). ucast b \<noteq> shrunkUID u"
  from absent have f: "findEEPROMAddress (EEPROM st) (shrunkUID u) = - 1"
    by (simp add: findEEPROMAddress_none)
  from full have e: "findEmptyEEPROMAddress (EEPROM st) = - 1"
    by (simp add: findEmptyEEPROMAddress_none)
  from nm mm f e show ?thesis
    by (simp add: card_event_unfold Let_def loop_manage_unfold)
qed

theorem store_full_add_fails_witness:
  "\<not> is_master (shrunkUID (read_uid [7])) \<and>
   manageMode (card_event (read_uid [0x62]) (setup_board [5, 9])) \<and>
   0 \<notin> set (EEPROM (card_event (read_uid [0x62]) (setup_board [5, 9]))) \<and>
   findEEPROMAddress (EEPROM (card_event (read_uid [0x62]) (setup_board [5, 9])))
     (shrunkUID (read_uid [7])) = - 1 \<and>
   EEPROM (card_event (read_uid [7]) (card_event (read_uid [0x62]) (setup_board [5, 9])))
     = [5, 9] \<and>
   \<not> manageMode (card_event (read_uid [7]) (card_event (read_uid [0x62]) (setup_board [5, 9])))"
proof -
  define st where "st = card_event (read_uid [0x62]) (setup_board [5, 9])"
  have e: "EEPROM st = [5, 9]"
    by (simp add: st_def EEPROM_card_event shrunk_eval master_eval setup_board_unfold)
  have n: "\<not> is_master (shrunkUID (read_uid [7]))"
    by (simp add: shrunk_eval master_eval)
  have m: "manageMode st"
    by (simp add: st_def manageMode_card_event shrunk_eval master_eval setup_board_unfold)
  have f: "0 \<notin> set (EEPROM st)"
    by (simp add: e)
  have a: "\<forall>b\<in>set (EEPROM st). ucast b \<noteq> shrunkUID (read_uid [7])"
    by (simp add: e shrunk_eval)
  from a have a': "findEEPROMAddress (EEPROM st) (shrunkUID (read_uid [7])) = - 1"
    by (simp add: findEEPROMAddress_none)
  from store_full_add_fails [OF n m f a] n m f a' e show ?thesis
    by (simp add: st_def [symmetric])
qed

subsection \<open>The store\<close>

text \<open>
  C1. Claimed: 0 is the empty marker and is never matched, so a card whose code is 0 is never
  granted access by matching an empty cell. The sketch does grant it. With the store
  \<open>[7, 0, 0]\<close> (code 7 enrolled, two empty cells), Normal mode, and a card with UID bytes
  25, 25, 25, 25 (sum 100, code 0), \<^verbatim>\<open>findEEPROMAddress(0)\<close> returns cell 1, which holds the
  marker, and \<^verbatim>\<open>loop\<close> prints "Access granted." and drives the relay for 3000 ms.
\<close>

theorem zero_code_granted_on_empty_slot:
  "shrunkUID (read_uid [25, 25, 25, 25]) = 0 \<and>
   findEEPROMAddress [7, 0, 0] 0 = 1 \<and>
   [7, 0, 0] ! 1 = (0 :: byte) \<and>
   trace (card_event (read_uid [25, 25, 25, 25]) (setup_board [7, 0, 0])) =
     trace (setup_board [7, 0, 0]) @
     [SerialPrint ''Card UID: '', SerialPrintlnInt 0,
      SerialPrintln ''Access granted.'',
      DigitalWrite GREEN_LED_PIN HIGH, DigitalWrite RELAY_PIN HIGH, Delay 3000,
      DigitalWrite RELAY_PIN LOW, DigitalWrite GREEN_LED_PIN LOW,
      PICC_HaltA, PCD_StopCrypto1]"
proof -
  have c: "shrunkUID (read_uid [25, 25, 25, 25]) = 0"
    by (simp add: shrunkUID_def uidByte_read_uid c_rem_def signed_modulo_int_def)
  have f: "findEEPROMAddress [7, 0, 0] 0 = 1"
    by (simp add: findEEPROMAddress_def findEEPROMAddress_from.simps)
  from c f show ?thesis
    by (simp add: card_event_unfold Let_def loop_normal_unfold setup_board_unfold master_eval)
qed

text \<open>
  C4. Store exclusivity is an invariant of \<^verbatim>\<open>loop\<close>: from any state whose store holds no
  non-empty code twice, every run of passes (with any cards, in any mode) ends in such a
  store. A code is written only after \<^verbatim>\<open>findEEPROMAddress\<close> did not find it, and only into
  a cell that was empty.
\<close>

theorem store_exclusivity_invariant:
  "store_ok (EEPROM st) \<Longrightarrow> store_ok (EEPROM (run its st))"
  unfolding run_def
proof (induction its arbitrary: st)
  case Nil
  then show ?case by simp
next
  case (Cons it its)
  from Cons.prems have "store_ok (EEPROM (loop it st))"
    by (rule store_ok_loop)
  then have "store_ok (EEPROM (fold loop its (loop it st)))"
    by (rule Cons.IH)
  then show ?case by simp
qed

theorem store_exclusivity_invariant_witness:
  "store_ok (EEPROM (setup_board [0, 0])) \<and>
   store_ok (EEPROM (run
     [\<lparr>checkClock = 10, card = Some (12, read_uid [0x0A, 0x0B, 0x0C, 0x0A])\<rparr>,
      \<lparr>checkClock = 5000, card = Some (5001, read_uid [7])\<rparr>]
     (setup_board [0, 0])))"
proof -
  have ok: "store_ok (EEPROM (setup_board [0, 0]))"
    by (simp add: setup_board_unfold store_ok_def)
  from store_exclusivity_invariant [OF ok] ok show ?thesis
    by simp
qed

text \<open>
  C7. Adding and then removing a code restores the store. In manage mode, a card that fails
  the master test and whose code is in no cell, with at least one cell empty, is written into
  the first empty cell. When the same card is scanned again in manage mode on the resulting
  store (whatever else of the state changed in between), that cell is cleared: the store is
  the original one. The hypotheses force the code to be non-zero; exclusivity of the
  original store is not needed.
\<close>

theorem add_then_remove_round_trip:
  assumes mm: "manageMode st" and mm': "manageMode st'"
    and between: "EEPROM st' = EEPROM (card_event u st)"
    and nm: "\<not> is_master (shrunkUID u)"
    and absent: "\<forall>b\<in>set (EEPROM st). ucast b \<noteq> shrunkUID u"
    and room: "0 \<in> set (EEPROM st)"
  shows "EEPROM (card_event u st) =
           (EEPROM st)[nat (findEmptyEEPROMAddress (EEPROM st)) := ucast (shrunkUID u)] \<and>
         EEPROM (card_event u st) ! nat (findEmptyEEPROMAddress (EEPROM st)) \<noteq> 0 \<and>
         EEPROM (card_event u st') = EEPROM st \<and>
         EEPROM (card_event u st') ! nat (findEmptyEEPROMAddress (EEPROM st)) = 0"
proof -
  define e where "e = EEPROM st"
  define c where "c = shrunkUID u"
  define k where "k = nat (findEmptyEEPROMAddress e)"
  define e1 where "e1 = e[k := ucast c]"
  have small: "uint c < 100"
    unfolding c_def by (rule shrunkUID_less)
  have trip: "(ucast (ucast c :: byte) :: cint) = c"
    using small by (rule ucast_ucast_small)
  from absent have f: "findEEPROMAddress e c = - 1"
    by (simp add: findEEPROMAddress_none e_def c_def)
  from room have r: "findEmptyEEPROMAddress e \<noteq> - 1"
    by (simp add: findEmptyEEPROMAddress_none e_def)
  from findEmptyEEPROMAddress_some [OF r] have k: "k < length e" and z: "e ! k = 0"
    by (simp_all add: k_def)
  from nm mm f r have first: "EEPROM (card_event u st) = e1"
    by (simp add: EEPROM_card_event loop_manage_unfold e_def c_def k_def e1_def)
  have nz: "(ucast c :: byte) \<noteq> 0"
  proof
    assume "(ucast c :: byte) = 0"
    with trip have "c = 0" by simp
    moreover from k z have "0 \<in> set e" by (metis nth_mem)
    ultimately show False using absent by (auto simp add: e_def c_def)
  qed
  have hit: "e1 ! k = ucast c"
    using k by (simp add: e1_def)
  have "ucast c \<in> set e1"
    using k hit by (metis length_list_update nth_mem e1_def)
  with trip have f1: "findEEPROMAddress e1 c \<noteq> - 1"
    by (auto simp add: findEEPROMAddress_none)
  define r where "r = nat (findEEPROMAddress e1 c)"
  from findEEPROMAddress_some [OF f1] have rl: "r < length e1" and rc: "ucast (e1 ! r) = c"
    by (simp_all add: r_def)
  have "r = k"
  proof (rule ccontr)
    assume "r \<noteq> k"
    then have "e1 ! r = e ! r" by (simp add: e1_def)
    moreover from rl have "e ! r \<in> set e" by (simp add: e1_def)
    ultimately show False using rc absent by (auto simp add: e_def c_def)
  qed
  from nm mm' f1 between first have "EEPROM (card_event u st') = e1[r := 0]"
    by (simp add: EEPROM_card_event loop_manage_unfold c_def r_def)
  also have "\<dots> = e[k := 0]"
    using \<open>r = k\<close> by (simp add: e1_def)
  also have "\<dots> = e"
    using z by (simp add: list_update_same_conv k)
  finally have second: "EEPROM (card_event u st') = e" .
  from first second hit nz z show ?thesis
    by (simp add: e_def c_def k_def e1_def)
qed

theorem add_then_remove_round_trip_witness:
  "manageMode (card_event (read_uid [0x62]) (setup_board [5, 0, 0])) \<and>
   manageMode (card_event (read_uid [0x62])
     (card_event (read_uid [7]) (card_event (read_uid [0x62]) (setup_board [5, 0, 0])))) \<and>
   \<not> is_master (shrunkUID (read_uid [7])) \<and>
   EEPROM (card_event (read_uid [7]) (card_event (read_uid [0x62]) (setup_board [5, 0, 0])))
     = [5, 7, 0] \<and>
   EEPROM (card_event (read_uid [7]) (card_event (read_uid [0x62])
     (card_event (read_uid [7]) (card_event (read_uid [0x62]) (setup_board [5, 0, 0])))))
     = [5, 0, 0]"
proof -
  define st where "st = card_event (read_uid [0x62]) (setup_board [5, 0, 0])"
  define st' where "st' = card_event (read_uid [0x62]) (card_event (read_uid [7]) st)"
  have e: "EEPROM st = [5, 0, 0]"
    by (simp add: st_def EEPROM_card_event shrunk_eval master_eval setup_board_unfold)
  have mm: "manageMode st"
    by (simp add: st_def manageMode_card_event shrunk_eval master_eval setup_board_unfold)
  have mm': "manageMode st'"
    by (simp add: st'_def manageMode_card_event shrunk_eval master_eval)
  have between: "EEPROM st' = EEPROM (card_event (read_uid [7]) st)"
    by (simp add: st'_def EEPROM_card_event [of "read_uid [0x62]"] shrunk_eval master_eval)
  have nm: "\<not> is_master (shrunkUID (read_uid [7]))"
    by (simp add: shrunk_eval master_eval)
  have absent: "\<forall>b\<in>set (EEPROM st). ucast b \<noteq> shrunkUID (read_uid [7])"
    by (simp add: e shrunk_eval)
  have room: "0 \<in> set (EEPROM st)"
    by (simp add: e)
  have k: "findEmptyEEPROMAddress [5, 0, 0] = 1"
    by (simp add: findEmptyEEPROMAddress_def findEmptyEEPROMAddress_from.simps)
  from add_then_remove_round_trip [OF mm mm' between nm absent room] mm mm' nm
  show ?thesis
    by (simp add: e k shrunk_eval st_def [symmetric] st'_def [symmetric])
qed

subsection \<open>The inactivity timer\<close>

text \<open>
  C9. (i) A pass of \<^verbatim>\<open>loop\<close> calls \<^verbatim>\<open>sleep_cpu()\<close> only if at least 1800000 ms (30 minutes) of
  the clock have passed since the refresh recorded in \<^verbatim>\<open>lastActivityTime\<close>; the wrap of
  \<^verbatim>\<open>millis()\<close> at \<open>2^32\<close> cannot make the test succeed early. (ii) A pass that reads a card
  sets \<^verbatim>\<open>lastActivityTime\<close> to the current \<^verbatim>\<open>millis()\<close> before the card is handled, and the
  handling leaves it alone. (iii) Hence no pass goes to sleep in a run in which the cards
  arrive more often than the threshold.
\<close>

theorem sleep_only_after_inactivity:
  "(lastActivityTime st = millis since \<and> since \<le> checkClock it \<and>
      sleep_entries (loop it st) \<noteq> sleep_entries st
      \<longrightarrow> 1800000 \<le> checkClock it - since) \<and>
   (card it = Some (clock, u) \<longrightarrow>
      loop it st = card_event u
        ((if millis (checkClock it) - lastActivityTime st \<ge> 1800000 then goToSleep st else st)
           \<lparr>activityFlag := True, lastActivityTime := millis clock\<rparr>) \<and>
      lastActivityTime (loop it st) = millis clock) \<and>
   (lastActivityTime st = millis since \<and> events_frequent since its
      \<longrightarrow> sleep_entries (run its st) = sleep_entries st)"
proof (intro conjI impI)
  assume a: "lastActivityTime st = millis since \<and> since \<le> checkClock it \<and>
      sleep_entries (loop it st) \<noteq> sleep_entries st"
  then have "millis (checkClock it) - millis since \<ge> 1800000"
    by (simp add: sleep_entries_loop split: if_splits)
  with a show "1800000 \<le> checkClock it - since"
    by (simp add: sleep_guard_elapsed)
next
  assume "card it = Some (clock, u)"
  then show "loop it st = card_event u
        ((if millis (checkClock it) - lastActivityTime st \<ge> 1800000 then goToSleep st else st)
           \<lparr>activityFlag := True, lastActivityTime := millis clock\<rparr>)"
    by (simp add: loop_def Let_def)
next
  assume "card it = Some (clock, u)"
  then show "lastActivityTime (loop it st) = millis clock"
    by (simp add: lastActivityTime_loop)
next
  assume "lastActivityTime st = millis since \<and> events_frequent since its"
  then show "sleep_entries (run its st) = sleep_entries st"
    by (simp add: run_def no_sleep_while_frequent)
qed

theorem sleep_only_after_inactivity_witness:
  "lastActivityTime (setup_board [0]) = millis 0 \<and>
   sleep_entries (loop \<lparr>checkClock = 1800000, card = None\<rparr> (setup_board [0])) = 1 \<and>
   sleep_entries (setup_board [0]) = 0 \<and>
   (1800000 :: nat) \<le> checkClock \<lparr>checkClock = 1800000, card = None\<rparr> - 0 \<and>
   lastActivityTime (loop \<lparr>checkClock = 1000, card = Some (1001, read_uid [7])\<rparr> (setup_board [0]))
     = millis 1001 \<and>
   events_frequent 0
     [\<lparr>checkClock = 1000, card = Some (1001, read_uid [7])\<rparr>,
      \<lparr>checkClock = 900000, card = None\<rparr>,
      \<lparr>checkClock = 1500000, card = Some (1500001, read_uid [7])\<rparr>] \<and>
   sleep_entries (run
     [\<lparr>checkClock = 1000, card = Some (1001, read_uid [7])\<rparr>,
      \<lparr>checkClock = 900000, card = None\<rparr>,
      \<lparr>checkClock = 1500000, card = Some (1500001, read_uid [7])\<rparr>] (setup_board [0])) = 0"
proof -
  have t0: "lastActivityTime (setup_board [0]) = millis 0"
    by (simp add: setup_board_unfold millis_def)
  have s0: "sleep_entries (setup_board [0]) = 0"
    by (simp add: setup_board_unfold sleep_entries_def)
  have s1: "sleep_entries (loop \<lparr>checkClock = 1800000, card = None\<rparr> (setup_board [0])) = 1"
    by (simp add: sleep_entries_loop s0) (simp add: setup_board_unfold millis_def)
  have fr: "events_frequent 0
     [\<lparr>checkClock = 1000, card = Some (1001, read_uid [7])\<rparr>,
      \<lparr>checkClock = 900000, card = None\<rparr>,
      \<lparr>checkClock = 1500000, card = Some (1500001, read_uid [7])\<rparr>]"
    by simp
  from sleep_only_after_inactivity
    [of "setup_board [0]" 0 "\<lparr>checkClock = 1800000, card = None\<rparr>" 1001 "read_uid [7]"
      "[\<lparr>checkClock = 1000, card = Some (1001, read_uid [7])\<rparr>,
        \<lparr>checkClock = 900000, card = None\<rparr>,
        \<lparr>checkClock = 1500000, card = Some (1500001, read_uid [7])\<rparr>]"]
    t0 s0 s1 fr
  have "sleep_entries (run
     [\<lparr>checkClock = 1000, card = Some (1001, read_uid [7])\<rparr>,
      \<lparr>checkClock = 900000, card = None\<rparr>,
      \<lparr>checkClock = 1500000, card = Some (1500001, read_uid [7])\<rparr>] (setup_board [0])) = 0"
    by simp
  moreover have c: "card \<lparr>checkClock = 1000, card = Some (1001, read_uid [7])\<rparr>
      = Some (1001, read_uid [7])"
    by simp
  moreover have "lastActivityTime
      (loop \<lparr>checkClock = 1000, card = Some (1001, read_uid [7])\<rparr> (setup_board [0]))
     = millis 1001"
    using c sleep_only_after_inactivity
      [of "setup_board [0]" 0 "\<lparr>checkClock = 1000, card = Some (1001, read_uid [7])\<rparr>"
        1001 "read_uid [7]" "[]"]
    by blast
  ultimately show ?thesis
    using t0 s0 s1 fr by simp
qed

end
